theory Spec2Isabelle
  imports Complex_Main
begin

section \<open>The client data cache of the NBA dashboard (store/useNBAStore.ts)\<close>

text \<open>
  The store is a zustand container: one state object, read with \<open>get()\<close> and written
  with \<open>set(partial)\<close>, which merges the given fields into the current state. Its
  operations are \<open>async\<close> functions. JavaScript runs them on one thread: a call runs
  up to its first \<open>await\<close>, where the request has been handed to the HTTP client, and
  the rest of the function runs, again without interruption, when that request settles.
  The model therefore has one function for each such uninterrupted piece of code, and a
  run of the system is a list of events: calls of the operations and settlements of the
  requests in flight, in any order.
\<close>

subsection \<open>JSON data\<close>

text \<open>
  TypeScript's interfaces are erased at run time, and the store reads the payloads of
  the API as \<open>any\<close>. Objects are therefore finite maps from property names to
  values; a missing property reads as \<open>undefined\<close>. The store compares numbers with
  \<open>===\<close> and never calculates with them, so a number is a rational (\<open>NaN\<close> and
  the infinities do not occur in JSON).
\<close>

type_synonym number = rat

datatype jval =
    JUndefined
  | JNull
  | JBool bool
  | JNum number
  | JStr string
  | JArr "jval list"
  | JObj "string \<Rightarrow> jval option"

type_synonym obj = "string \<Rightarrow> jval option"

text \<open>\<open>o.k\<close> on an object.\<close>

definition property :: "obj \<Rightarrow> string \<Rightarrow> jval" where
  "property ob k = (case ob k of None \<Rightarrow> JUndefined | Some v \<Rightarrow> v)"

text \<open>\<open>v?.k\<close>: \<open>undefined\<close> when \<open>v\<close> is \<open>null\<close> or \<open>undefined\<close>; a primitive
  value has none of the property names the store reads.\<close>

fun optional_chain :: "jval \<Rightarrow> string \<Rightarrow> jval" where
  "optional_chain (JObj ob) k = property ob k"
| "optional_chain _ k = JUndefined"

text \<open>\<open>v ?? d\<close>: the default only for \<open>null\<close> and \<open>undefined\<close>.\<close>

fun nullish_coalesce :: "jval \<Rightarrow> jval \<Rightarrow> jval" where
  "nullish_coalesce JUndefined d = d"
| "nullish_coalesce JNull d = d"
| "nullish_coalesce v d = v"

text \<open>A default parameter value (\<open>temperature = 72\<close>) is taken when the argument is
  left out.\<close>

fun default_arg :: "number option \<Rightarrow> number \<Rightarrow> number" where
  "default_arg None d = d"
| "default_arg (Some v) d = v"

subsection \<open>The JavaScript \<open>Map\<close>\<close>

text \<open>
  A \<open>Map\<close> is its list of entries in insertion order. \<open>Map.prototype.set\<close> walks the
  entries: an entry with the same key gets the new value in place, otherwise the entry
  is appended. \<open>new Map(iterable)\<close> starts from the empty map and calls \<open>set\<close> for
  each entry of the iterable. Nothing in the types keeps the keys of an entry list apart:
  that they are is a property of these operations, proved below.
\<close>

type_synonym ('k, 'v) js_map = "('k \<times> 'v) list"

fun Map_set :: "'k \<Rightarrow> 'v \<Rightarrow> ('k, 'v) js_map \<Rightarrow> ('k, 'v) js_map" where
  "Map_set k v [] = [(k, v)]"
| "Map_set k v (e # es) = (if fst e = k then (k, v) # es else e # Map_set k v es)"

fun Map_get :: "('k, 'v) js_map \<Rightarrow> 'k \<Rightarrow> 'v option" where
  "Map_get [] k = None"
| "Map_get (e # es) k = (if fst e = k then Some (snd e) else Map_get es k)"

definition Map_new :: "('k \<times> 'v) list \<Rightarrow> ('k, 'v) js_map" where
  "Map_new entries = foldl (\<lambda>m e. Map_set (fst e) (snd e) m) [] entries"

text \<open>The number of entries a map holds for a key.\<close>

definition entries_for :: "'k \<Rightarrow> ('k, 'v) js_map \<Rightarrow> nat" where
  "entries_for k m = length (filter (\<lambda>e. fst e = k) m)"

subsection \<open>The state of the store\<close>

text \<open>
  \<open>interface NBAState\<close>. A player and a team are JSON objects, a prediction is a JSON
  object stored under a key; \<open>fetchingInfo\<close> is a \<open>Set\<close> of player ids. No operation
  assigns the field \<open>fetchingInfo\<close>: every snapshot of the state refers to the one
  \<open>Set\<close> object made at start-up, which \<open>add\<close> and \<open>delete\<close> change in place, so a
  change through a snapshot taken earlier is a change of the current field.
\<close>

record NBAState =
  players :: "obj list"
  teams :: "obj list"
  loading :: bool
  error :: "string option"
  selectedPlayerId :: "number option"
  injuryPredictions :: "(jval, obj) js_map"
  fetchingInfo :: "number set"
  teamsFetching :: bool
  predictionsBatching :: bool

definition initial :: NBAState where
  "initial = \<lparr> players = [], teams = [], loading = False, error = None,
     selectedPlayerId = None, injuryPredictions = [], fetchingInfo = {},
     teamsFetching = False, predictionsBatching = False \<rparr>"

subsection \<open>The HTTP client\<close>

text \<open>
  The calls the store makes on \<open>api\<close> (an axios instance). A request that has been
  issued is in flight until it settles; \<open>calls\<close> is the log of every request issued.
\<close>

datatype request =
    GetPlayersSummary
  | GetPlayers
  | GetTeams
  | PostPredictInjury number number number
  | GetPlayerInfo number
  | PostPredictInjuryBulk "jval list"

text \<open>
  A request settles with \<open>res.data\<close> or with an exception, of which the store reads
  \<open>err.message\<close>. The \<open>catch\<close> clauses do not tell a rejected request from an
  exception raised while the payload is read (a \<open>TypeError\<close> on a \<open>null\<close> payload):
  both run the same handler before anything is written, so \<open>Rejected\<close> stands for both.
\<close>

datatype 'a response = Rejected string | Fulfilled 'a

record world =
  store :: NBAState
  pending :: "request list"
  calls :: "request list"

definition boot :: world where
  "boot = \<lparr> store = initial, pending = [], calls = [] \<rparr>"

definition issue :: "request \<Rightarrow> world \<Rightarrow> world" where
  "issue r w = w\<lparr> pending := pending w @ [r], calls := calls w @ [r] \<rparr>"

subsection \<open>The operations\<close>

text \<open>\<open>fetchPlayers\<close>, up to \<open>await api.get('/players/summary')\<close>.\<close>

definition fetchPlayers :: "world \<Rightarrow> world" where
  "fetchPlayers w =
     issue GetPlayersSummary
       (if length (players (store w)) = 0
        then w\<lparr> store := (store w)\<lparr> loading := True, error := None \<rparr> \<rparr>
        else w)"

text \<open>\<open>fetchPlayers\<close> after the summary request: the \<open>catch\<close> clause issues the
  fallback request.\<close>

fun fetchPlayers_summary :: "obj list response \<Rightarrow> world \<Rightarrow> world" where
  "fetchPlayers_summary (Fulfilled data) w =
     w\<lparr> store := (store w)\<lparr> players := data, loading := False \<rparr> \<rparr>"
| "fetchPlayers_summary (Rejected msg) w = issue GetPlayers w"

text \<open>\<open>fetchPlayers\<close> after the fallback request.\<close>

fun fetchPlayers_fallback :: "obj list response \<Rightarrow> world \<Rightarrow> world" where
  "fetchPlayers_fallback (Fulfilled data) w =
     w\<lparr> store := (store w)\<lparr> players := data, loading := False \<rparr> \<rparr>"
| "fetchPlayers_fallback (Rejected msg) w =
     w\<lparr> store := (store w)\<lparr> error := Some msg, loading := False \<rparr> \<rparr>"

text \<open>\<open>fetchTeams\<close>, up to \<open>await api.get('/teams')\<close>, and after it.\<close>

definition fetchTeams :: "world \<Rightarrow> world" where
  "fetchTeams w =
     (if teamsFetching (store w) then w
      else issue GetTeams
             (w\<lparr> store := (store w)\<lparr> loading := True, error := None,
                                      teamsFetching := True \<rparr> \<rparr>))"

fun fetchTeams_settled :: "obj list response \<Rightarrow> world \<Rightarrow> world" where
  "fetchTeams_settled (Fulfilled data) w =
     w\<lparr> store := (store w)\<lparr> teams := data, loading := False, teamsFetching := False \<rparr> \<rparr>"
| "fetchTeams_settled (Rejected msg) w =
     w\<lparr> store := (store w)\<lparr> error := Some msg, loading := False,
                              teamsFetching := False \<rparr> \<rparr>"

definition selectPlayer :: "number option \<Rightarrow> world \<Rightarrow> world" where
  "selectPlayer playerId w = w\<lparr> store := (store w)\<lparr> selectedPlayerId := playerId \<rparr> \<rparr>"

text \<open>\<open>predictInjury\<close>: the request, the normalised prediction, and the write.\<close>

definition predictInjury :: "number \<Rightarrow> number option \<Rightarrow> number option \<Rightarrow> world \<Rightarrow> world" where
  "predictInjury playerId temperature humidity w =
     issue (PostPredictInjury playerId (default_arg temperature 72) (default_arg humidity 50)) w"

definition normalized :: "obj \<Rightarrow> number \<Rightarrow> number \<Rightarrow> obj" where
  "normalized data temperature humidity =
     [ ''player_id'' \<mapsto> property data ''player_id'',
       ''injury_risk'' \<mapsto> property data ''injury_risk'',
       ''risk_level'' \<mapsto> property data ''risk_level'',
       ''factors'' \<mapsto> JObj
         [ ''temperature'' \<mapsto>
             nullish_coalesce
               (optional_chain (optional_chain (property data ''contributing_factors'')
                  ''environmental'') ''temperature'')
               (JNum temperature),
           ''humidity'' \<mapsto>
             nullish_coalesce
               (optional_chain (optional_chain (property data ''contributing_factors'')
                  ''environmental'') ''humidity'')
               (JNum humidity),
           ''timestamp'' \<mapsto> property data ''timestamp'' ] ]"

fun predictInjury_settled ::
  "number \<Rightarrow> number \<Rightarrow> number \<Rightarrow> obj response \<Rightarrow> world \<Rightarrow> world" where
  "predictInjury_settled playerId temperature humidity (Fulfilled data) w =
     w\<lparr> store := (store w)\<lparr> injuryPredictions :=
          Map_set (JNum playerId) (normalized data temperature humidity)
            (Map_new (injuryPredictions (store w))) \<rparr> \<rparr>"
| "predictInjury_settled playerId temperature humidity (Rejected msg) w =
     w\<lparr> store := (store w)\<lparr> error := Some msg \<rparr> \<rparr>"

text \<open>\<open>fetchPlayerInfo\<close>: \<open>{ ...p, ...res.data }\<close> is the old record overridden by the
  properties of the response.\<close>

definition fetchPlayerInfo :: "number \<Rightarrow> world \<Rightarrow> world" where
  "fetchPlayerInfo playerId w =
     (if playerId \<in> fetchingInfo (store w) then w
      else issue (GetPlayerInfo playerId)
             (w\<lparr> store := (store w)\<lparr> fetchingInfo :=
                   insert playerId (fetchingInfo (store w)) \<rparr> \<rparr>))"

fun fetchPlayerInfo_settled :: "number \<Rightarrow> obj response \<Rightarrow> world \<Rightarrow> world" where
  "fetchPlayerInfo_settled playerId (Fulfilled data) w =
     w\<lparr> store := (store w)\<lparr>
          players := map (\<lambda>p. if property p ''id'' = JNum playerId then p ++ data else p)
                       (players (store w)),
          fetchingInfo := fetchingInfo (store w) - {playerId} \<rparr> \<rparr>"
| "fetchPlayerInfo_settled playerId (Rejected msg) w =
     w\<lparr> store := (store w)\<lparr> error := Some msg,
          fetchingInfo := fetchingInfo (store w) - {playerId} \<rparr> \<rparr>"

text \<open>The two lookups. \<open>getTeamById\<close> returns what it found and may start
  \<open>fetchTeams\<close>; an object is truthy, so \<open>!found\<close> says that nothing was found.\<close>

definition getPlayerById :: "number \<Rightarrow> world \<Rightarrow> obj option" where
  "getPlayerById playerId w = find (\<lambda>p. property p ''id'' = JNum playerId) (players (store w))"

definition getTeamById :: "number \<Rightarrow> world \<Rightarrow> obj option \<times> world" where
  "getTeamById teamId w =
     (let found = find (\<lambda>t. property t ''id'' = JNum teamId) (teams (store w))
      in (found, if found = None \<and> \<not> teamsFetching (store w) then fetchTeams w else w))"

text \<open>\<open>batchPredictAll\<close>. The payload is \<open>Object.values(data)\<close>, the predictions in
  the order of the response's properties; \<open>finally\<close> runs after either branch.\<close>

definition batchPredictAll :: "world \<Rightarrow> world" where
  "batchPredictAll w =
     (if predictionsBatching (store w) \<or> length (players (store w)) = 0 then w
      else issue (PostPredictInjuryBulk (map (\<lambda>p. property p ''id'') (players (store w))))
             (w\<lparr> store := (store w)\<lparr> predictionsBatching := True \<rparr> \<rparr>))"

definition set_all :: "obj list \<Rightarrow> (jval, obj) js_map \<Rightarrow> (jval, obj) js_map" where
  "set_all preds newMap = foldl (\<lambda>m pred. Map_set (property pred ''player_id'') pred m) newMap preds"

fun batchPredictAll_settled :: "obj list response \<Rightarrow> world \<Rightarrow> world" where
  "batchPredictAll_settled (Fulfilled preds) w =
     w\<lparr> store := (store w)\<lparr>
          injuryPredictions := set_all preds (Map_new (injuryPredictions (store w))),
          predictionsBatching := False \<rparr> \<rparr>"
| "batchPredictAll_settled (Rejected msg) w =
     w\<lparr> store := (store w)\<lparr> error := Some msg, predictionsBatching := False \<rparr> \<rparr>"

subsection \<open>Runs\<close>

text \<open>
  An event is a call of an operation or the settlement of a request. A settlement runs
  the rest of the operation that issued the request, and only a request in flight can
  settle: the event is ignored otherwise.
\<close>

datatype event =
    Call_fetchPlayers
  | Call_fetchTeams
  | Call_selectPlayer "number option"
  | Call_predictInjury number "number option" "number option"
  | Call_fetchPlayerInfo number
  | Call_getPlayerById number
  | Call_getTeamById number
  | Call_batchPredictAll
  | Settle_summary "obj list response"
  | Settle_players "obj list response"
  | Settle_teams "obj list response"
  | Settle_predict number number number "obj response"
  | Settle_info number "obj response"
  | Settle_bulk "jval list" "obj list response"

definition settle :: "request \<Rightarrow> (world \<Rightarrow> world) \<Rightarrow> world \<Rightarrow> world" where
  "settle r continue w =
     (if r \<in> set (pending w) then continue (w\<lparr> pending := remove1 r (pending w) \<rparr>) else w)"

fun step :: "event \<Rightarrow> world \<Rightarrow> world" where
  "step Call_fetchPlayers w = fetchPlayers w"
| "step Call_fetchTeams w = fetchTeams w"
| "step (Call_selectPlayer playerId) w = selectPlayer playerId w"
| "step (Call_predictInjury playerId temperature humidity) w =
     predictInjury playerId temperature humidity w"
| "step (Call_fetchPlayerInfo playerId) w = fetchPlayerInfo playerId w"
| "step (Call_getPlayerById playerId) w = w"
| "step (Call_getTeamById teamId) w = snd (getTeamById teamId w)"
| "step Call_batchPredictAll w = batchPredictAll w"
| "step (Settle_summary r) w = settle GetPlayersSummary (fetchPlayers_summary r) w"
| "step (Settle_players r) w = settle GetPlayers (fetchPlayers_fallback r) w"
| "step (Settle_teams r) w = settle GetTeams (fetchTeams_settled r) w"
| "step (Settle_predict playerId temperature humidity r) w =
     settle (PostPredictInjury playerId temperature humidity)
       (predictInjury_settled playerId temperature humidity r) w"
| "step (Settle_info playerId r) w =
     settle (GetPlayerInfo playerId) (fetchPlayerInfo_settled playerId r) w"
| "step (Settle_bulk ids r) w =
     settle (PostPredictInjuryBulk ids) (batchPredictAll_settled r) w"

definition run :: "event list \<Rightarrow> world \<Rightarrow> world" where
  "run evs w = foldl (\<lambda>w' ev. step ev w') w evs"

subsection \<open>Invariants of a run\<close>

text \<open>The keys of the prediction map are apart.\<close>

definition keys_apart :: "world \<Rightarrow> bool" where
  "keys_apart w = distinct (map fst (injuryPredictions (store w)))"

text \<open>The flag \<open>teamsFetching\<close> counts the requests for \<open>/teams\<close> in flight.\<close>

definition teams_guard :: "world \<Rightarrow> bool" where
  "teams_guard w =
     (count_list (pending w) GetTeams = (if teamsFetching (store w) then 1 else 0))"

subsection \<open>The response of the prediction service, as documented\<close>

text \<open>
  The documented response is \<open>{ player_id, injury_risk, risk_level,
  contributing_factors: { environmental: { temperature, humidity } }, timestamp }\<close>.
  The server supplies an environmental value when the response has the two nested
  objects and the property is there with a value other than \<open>null\<close>.
\<close>

definition supplied :: "obj \<Rightarrow> string \<Rightarrow> jval option" where
  "supplied data k =
     (case data ''contributing_factors'' of
        Some (JObj cf) \<Rightarrow>
          (case cf ''environmental'' of
             Some (JObj env) \<Rightarrow>
               (case env k of
                  None \<Rightarrow> None
                | Some v \<Rightarrow> if v = JNull then None else if v = JUndefined then None else Some v)
           | _ \<Rightarrow> None)
      | _ \<Rightarrow> None)"

subsection \<open>Sample data\<close>



definition one_player :: world where
  "one_player = boot\<lparr> store := initial\<lparr> players := [[''id'' \<mapsto> JNum 1]] \<rparr> \<rparr>"

text \<open>Team 14 has been loaded and no load is in flight.\<close>

definition team_loaded :: world where
  "team_loaded = run [Call_fetchTeams, Settle_teams (Fulfilled [[''id'' \<mapsto> JNum 14]])] boot"

text \<open>A response of the prediction service with a temperature and no humidity.\<close>

definition warm_day :: obj where
  "warm_day = [''player_id'' \<mapsto> JNum 7, ''risk_level'' \<mapsto> JStr ''High'',
     ''contributing_factors'' \<mapsto>
        JObj [''environmental'' \<mapsto> JObj [''temperature'' \<mapsto> JNum 85]]]"

section \<open>Properties of the map operations\<close>

text \<open>
  \<open>Map_set\<close> keeps the keys of a map apart and the last value written to a key is
  the one read back; copying a map whose keys are apart gives the same map.
\<close>

lemma keys_Map_set: "set (map fst (Map_set k v m)) = insert k (set (map fst m))"
  by (induction m) auto

lemma distinct_Map_set: "distinct (map fst m) \<Longrightarrow> distinct (map fst (Map_set k v m))"
proof (induction m)
  case Nil
  then show ?case by simp
next
  case (Cons e es)
  have "fst e \<noteq> k \<Longrightarrow> fst e \<notin> set (map fst (Map_set k v es))"
    using Cons.prems by (simp only: keys_Map_set) auto
  with Cons show ?case by auto
qed

lemma Map_get_set: "Map_get (Map_set k v m) k' = (if k' = k then Some v else Map_get m k')"
  by (induction m) auto

lemma Map_set_fresh: "k \<notin> fst ` set m \<Longrightarrow> Map_set k v m = m @ [(k, v)]"
  by (induction m) auto

lemma foldl_Map_set_distinct:
  "distinct (map fst (acc @ es)) \<Longrightarrow> foldl (\<lambda>m e. Map_set (fst e) (snd e) m) acc es = acc @ es"
proof (induction es arbitrary: acc)
  case Nil
  then show ?case by simp
next
  case (Cons e es)
  have fresh: "fst e \<notin> fst ` set acc" using Cons.prems by auto
  have "Map_set (fst e) (snd e) acc = acc @ [e]"
    using Map_set_fresh [OF fresh, of "snd e"] by simp
  moreover have "distinct (map fst ((acc @ [e]) @ es))" using Cons.prems by simp
  ultimately show ?case using Cons.IH [of "acc @ [e]"] by simp
qed

lemma Map_new_distinct_id: "distinct (map fst m) \<Longrightarrow> Map_new m = m"
  unfolding Map_new_def using foldl_Map_set_distinct [of "[]" m] by simp

lemma foldl_Map_set_keeps_distinct:
  "distinct (map fst acc) \<Longrightarrow> distinct (map fst (foldl (\<lambda>m e. Map_set (f e) (g e) m) acc es))"
  by (induction es arbitrary: acc) (auto simp: distinct_Map_set)

lemma distinct_Map_new: "distinct (map fst (Map_new es))"
  unfolding Map_new_def using foldl_Map_set_keeps_distinct [of "[]" fst snd es] by simp

lemma distinct_set_all: "distinct (map fst m) \<Longrightarrow> distinct (map fst (set_all preds m))"
  unfolding set_all_def using foldl_Map_set_keeps_distinct [of m "\<lambda>p. property p ''player_id''" "\<lambda>p. p" preds] by simp

lemma find_app:
  "find P (xs @ ys) = (case find P xs of None \<Rightarrow> find P ys | Some x \<Rightarrow> Some x)"
  by (induction xs) auto

lemma Map_get_set_all:
  "Map_get (set_all preds m) k =
     (case find (\<lambda>p. property p ''player_id'' = k) (rev preds) of
        Some p \<Rightarrow> Some p | None \<Rightarrow> Map_get m k)"
proof (induction preds arbitrary: m)
  case Nil
  then show ?case by (simp add: set_all_def)
next
  case (Cons p ps)
  have "set_all (p # ps) m = set_all ps (Map_set (property p ''player_id'') p m)"
    by (simp add: set_all_def)
  then show ?case
    by (simp add: Cons.IH Map_get_set find_app split: option.splits)
qed

lemma entries_for_distinct: "distinct (map fst m) \<Longrightarrow> entries_for k m \<le> 1"
  unfolding entries_for_def
  by (induction m) (auto simp: filter_empty_conv image_iff)

lemma entries_for_present:
  "distinct (map fst m) \<Longrightarrow> Map_get m k = Some v \<Longrightarrow> entries_for k m = 1"
  unfolding entries_for_def
  by (induction m) (auto simp: filter_empty_conv image_iff split: if_splits)

section \<open>Invariants\<close>

subsection \<open>The prediction map holds one entry for a key\<close>


lemma predictions_issue [simp]:
  "injuryPredictions (store (issue r w)) = injuryPredictions (store w)"
  by (simp add: issue_def)

lemma predictions_fetchPlayers [simp]:
  "injuryPredictions (store (fetchPlayers w)) = injuryPredictions (store w)"
  by (simp add: fetchPlayers_def)

lemma predictions_fetchTeams [simp]:
  "injuryPredictions (store (fetchTeams w)) = injuryPredictions (store w)"
  by (simp add: fetchTeams_def)

lemma predictions_getTeamById [simp]:
  "injuryPredictions (store (snd (getTeamById teamId w))) = injuryPredictions (store w)"
  by (simp add: getTeamById_def Let_def)

lemma predictions_fetchPlayers_summary [simp]:
  "injuryPredictions (store (fetchPlayers_summary r w)) = injuryPredictions (store w)"
  by (cases r) simp_all

lemma predictions_fetchPlayers_fallback [simp]:
  "injuryPredictions (store (fetchPlayers_fallback r w)) = injuryPredictions (store w)"
  by (cases r) simp_all

lemma predictions_fetchTeams_settled [simp]:
  "injuryPredictions (store (fetchTeams_settled r w)) = injuryPredictions (store w)"
  by (cases r) simp_all

lemma predictions_fetchPlayerInfo_settled [simp]:
  "injuryPredictions (store (fetchPlayerInfo_settled playerId r w)) = injuryPredictions (store w)"
  by (cases r) simp_all

lemma keys_apart_predictInjury_settled:
  "keys_apart (predictInjury_settled playerId t h r w) = (case r of Fulfilled d \<Rightarrow> True | Rejected m \<Rightarrow> keys_apart w)"
  by (cases r) (simp_all add: keys_apart_def distinct_Map_set distinct_Map_new)

lemma keys_apart_batchPredictAll_settled:
  "keys_apart (batchPredictAll_settled r w) = (case r of Fulfilled d \<Rightarrow> True | Rejected m \<Rightarrow> keys_apart w)"
  by (cases r) (simp_all add: keys_apart_def distinct_set_all distinct_Map_new)

lemma keys_apart_settle:
  assumes "keys_apart w" and "\<And>w'. keys_apart w' \<Longrightarrow> keys_apart (k w')"
  shows "keys_apart (settle r k w)"
proof -
  have "keys_apart (w\<lparr> pending := remove1 r (pending w) \<rparr>)"
    using assms(1) by (simp add: keys_apart_def)
  then show ?thesis using assms by (simp add: settle_def)
qed

lemma keys_apart_step: "keys_apart w \<Longrightarrow> keys_apart (step ev w)"
proof (cases ev)
  case (Settle_predict playerId t h r)
  assume "keys_apart w"
  then show ?thesis unfolding Settle_predict step.simps
    by (rule keys_apart_settle) (simp add: keys_apart_predictInjury_settled split: response.splits)
next
  case (Settle_bulk ids r)
  assume "keys_apart w"
  then show ?thesis unfolding Settle_bulk step.simps
    by (rule keys_apart_settle) (simp add: keys_apart_batchPredictAll_settled split: response.splits)
qed (auto simp: keys_apart_def settle_def selectPlayer_def predictInjury_def
       fetchPlayerInfo_def batchPredictAll_def)

lemma keys_apart_run: "keys_apart w \<Longrightarrow> keys_apart (run evs w)"
  unfolding run_def by (induction evs arbitrary: w) (simp_all add: keys_apart_step)

lemma keys_apart_boot: "keys_apart boot"
  by (simp add: keys_apart_def boot_def initial_def)

subsection \<open>At most one request for the teams is in flight\<close>

lemma count_list_remove1:
  "count_list (remove1 x xs) y = (if x = y \<and> x \<in> set xs then count_list xs y - 1 else count_list xs y)"
  by (induction xs) auto

lemma teams_guard_fetchTeams: "teams_guard w \<Longrightarrow> teams_guard (fetchTeams w)"
  by (simp add: teams_guard_def fetchTeams_def issue_def)

lemma teams_guard_settle_other:
  assumes "teams_guard w" and "r \<noteq> GetTeams"
    and "\<And>w'. teams_guard w' \<Longrightarrow> teams_guard (k w')"
  shows "teams_guard (settle r k w)"
proof -
  have "teams_guard (w\<lparr> pending := remove1 r (pending w) \<rparr>)"
    using assms(1,2) by (simp add: teams_guard_def count_list_remove1)
  then show ?thesis using assms by (simp add: settle_def)
qed

lemma teams_guard_settle_teams:
  assumes "teams_guard w"
  shows "teams_guard (settle GetTeams (fetchTeams_settled r) w)"
proof (cases "GetTeams \<in> set (pending w)")
  case False
  then show ?thesis using assms by (simp add: settle_def)
next
  case True
  then have "count_list (pending w) GetTeams = 1"
    using assms by (auto simp: teams_guard_def count_list_0_iff split: if_splits)
  then have "count_list (remove1 GetTeams (pending w)) GetTeams = 0"
    using True by (simp add: count_list_remove1)
  then show ?thesis using True
    by (cases r) (simp_all add: settle_def teams_guard_def)
qed

lemma teams_guard_step: "teams_guard w \<Longrightarrow> teams_guard (step ev w)"
proof (cases ev)
  case Call_fetchTeams
  assume "teams_guard w"
  then show ?thesis unfolding Call_fetchTeams by (simp add: teams_guard_fetchTeams)
next
  case (Call_getTeamById teamId)
  assume "teams_guard w"
  then show ?thesis unfolding Call_getTeamById
    by (simp add: getTeamById_def Let_def teams_guard_fetchTeams)
next
  case (Settle_teams r)
  assume "teams_guard w"
  then show ?thesis unfolding Settle_teams step.simps by (rule teams_guard_settle_teams)
next
  case (Settle_summary r)
  assume "teams_guard w"
  then show ?thesis unfolding Settle_summary step.simps
    by (rule teams_guard_settle_other) (cases r; simp add: teams_guard_def issue_def)+
next
  case (Settle_players r)
  assume "teams_guard w"
  then show ?thesis unfolding Settle_players step.simps
    by (rule teams_guard_settle_other) (cases r; simp add: teams_guard_def)+
next
  case (Settle_predict playerId t h r)
  assume "teams_guard w"
  then show ?thesis unfolding Settle_predict step.simps
    by (rule teams_guard_settle_other) (cases r; simp add: teams_guard_def)+
next
  case (Settle_info playerId r)
  assume "teams_guard w"
  then show ?thesis unfolding Settle_info step.simps
    by (rule teams_guard_settle_other) (cases r; simp add: teams_guard_def)+
next
  case (Settle_bulk ids r)
  assume "teams_guard w"
  then show ?thesis unfolding Settle_bulk step.simps
    by (rule teams_guard_settle_other) (cases r; simp add: teams_guard_def)+
qed (auto simp: teams_guard_def fetchPlayers_def issue_def selectPlayer_def predictInjury_def
       fetchPlayerInfo_def batchPredictAll_def)

lemma teams_guard_run: "teams_guard w \<Longrightarrow> teams_guard (run evs w)"
  unfolding run_def by (induction evs arbitrary: w) (simp_all add: teams_guard_step)

lemma teams_guard_boot: "teams_guard boot"
  by (simp add: teams_guard_def boot_def initial_def)

lemma in_set_count_list: "x \<in> set xs \<longleftrightarrow> 0 < count_list xs x"
  by (induction xs) auto

lemma teams_guard_pending:
  "teams_guard w \<Longrightarrow> teamsFetching (store w) = (GetTeams \<in> set (pending w))"
  by (simp add: teams_guard_def in_set_count_list split: if_splits)

section \<open>The claims\<close>

subsection \<open>C1: one prediction for a player id, the last write wins\<close>

text \<open>
  C1. In every state that a sequence of calls and settlements reaches from start-up,
  the prediction map holds at most one entry for a key. A successful \<open>predictInjury\<close>
  leaves exactly one entry for its player id, the normalised prediction just received,
  and every other key as it was. A successful \<open>batchPredictAll\<close> leaves for a key
  the last prediction of the response that carries it as \<open>player_id\<close>, or the entry
  the key had before when no prediction of the response carries it.
\<close>

theorem prediction_map_one_entry_per_id:
  "entries_for k (injuryPredictions (store (run evs boot))) \<le> 1
   \<and> entries_for (JNum playerId)
        (injuryPredictions (store (predictInjury_settled playerId t h (Fulfilled data) (run evs boot)))) = 1
   \<and> Map_get (injuryPredictions (store (predictInjury_settled playerId t h (Fulfilled data) (run evs boot)))) k
       = (if k = JNum playerId then Some (normalized data t h)
          else Map_get (injuryPredictions (store (run evs boot))) k)
   \<and> entries_for k
        (injuryPredictions (store (batchPredictAll_settled (Fulfilled preds) (run evs boot)))) \<le> 1
   \<and> Map_get (injuryPredictions (store (batchPredictAll_settled (Fulfilled preds) (run evs boot)))) k
       = (case find (\<lambda>pred. property pred ''player_id'' = k) (rev preds) of
            Some pred \<Rightarrow> Some pred
          | None \<Rightarrow> Map_get (injuryPredictions (store (run evs boot))) k)"
proof -
  let ?m = "injuryPredictions (store (run evs boot))"
  have apart: "distinct (map fst ?m)"
    using keys_apart_run [OF keys_apart_boot, of evs] by (simp add: keys_apart_def)
  have copy: "Map_new ?m = ?m"
    using apart by (rule Map_new_distinct_id)
  have one: "entries_for k ?m \<le> 1"
    using apart by (rule entries_for_distinct)
  have apart1: "distinct (map fst (Map_set (JNum playerId) (normalized data t h) ?m))"
    using apart by (rule distinct_Map_set)
  have "Map_get (Map_set (JNum playerId) (normalized data t h) ?m) (JNum playerId)
          = Some (normalized data t h)"
    by (simp add: Map_get_set)
  with apart1
  have one1: "entries_for (JNum playerId) (Map_set (JNum playerId) (normalized data t h) ?m) = 1"
    by (rule entries_for_present)
  have "distinct (map fst (set_all preds ?m))"
    using apart by (rule distinct_set_all)
  then have one2: "entries_for k (set_all preds ?m) \<le> 1"
    by (rule entries_for_distinct)
  show ?thesis
    using one one1 one2 by (simp add: copy Map_get_set Map_get_set_all)
qed

text \<open>Two predictions for player 7, one after the other: the second replaces the first.\<close>

theorem prediction_map_one_entry_per_id_witness:
  "run [Call_predictInjury 7 None None, Settle_predict 7 72 50 (Fulfilled [''risk_level'' \<mapsto> JStr ''Low''])] boot
     = \<lparr> store = initial\<lparr> injuryPredictions :=
                      [(JNum 7, normalized [''risk_level'' \<mapsto> JStr ''Low''] 72 50)] \<rparr>,
         pending = [], calls = [PostPredictInjury 7 72 50] \<rparr>
   \<and> injuryPredictions (store (predictInjury_settled 7 80 50 (Fulfilled [''risk_level'' \<mapsto> JStr ''High''])
        (run [Call_predictInjury 7 None None,
              Settle_predict 7 72 50 (Fulfilled [''risk_level'' \<mapsto> JStr ''Low''])] boot)))
     = [(JNum 7, normalized [''risk_level'' \<mapsto> JStr ''High''] 80 50)]
   \<and> entries_for (JNum 7)
        (injuryPredictions (store (predictInjury_settled 7 80 50 (Fulfilled [''risk_level'' \<mapsto> JStr ''High''])
          (run [Call_predictInjury 7 None None,
                Settle_predict 7 72 50 (Fulfilled [''risk_level'' \<mapsto> JStr ''Low''])] boot)))) = 1"
  using prediction_map_one_entry_per_id
    [of "JNum 7" "[Call_predictInjury 7 None None,
           Settle_predict 7 72 50 (Fulfilled [''risk_level'' \<mapsto> JStr ''Low''])]"
        7 80 50 "[''risk_level'' \<mapsto> JStr ''High'']" "[]"]
  by (simp add: run_def predictInjury_def issue_def settle_def boot_def initial_def Map_new_def)

subsection \<open>C2: one request for the teams at a time\<close>

text \<open>
  C2. \<open>fetchTeams\<close> called while \<open>teamsFetching\<close> is set returns at once: nothing
  is written and no request is issued. Two calls in a row, the first with the flag
  clear, issue one request for \<open>/teams\<close>. In every state reached from start-up at
  most one such request is in flight, and while one is, a call of \<open>fetchTeams\<close>
  changes nothing.
\<close>

theorem fetchTeams_single_flight:
  "(teamsFetching (store w) \<longrightarrow> fetchTeams w = w)
   \<and> (\<not> teamsFetching (store w) \<longrightarrow>
        calls (run [Call_fetchTeams, Call_fetchTeams] w) = calls w @ [GetTeams])
   \<and> count_list (pending (run evs boot)) GetTeams \<le> 1
   \<and> (GetTeams \<in> set (pending (run evs boot)) \<longrightarrow>
        fetchTeams (run evs boot) = run evs boot)"
proof -
  have guard: "teams_guard (run evs boot)"
    using teams_guard_boot by (rule teams_guard_run)
  then have "count_list (pending (run evs boot)) GetTeams \<le> 1"
    by (simp add: teams_guard_def split: if_splits)
  moreover have "GetTeams \<in> set (pending (run evs boot)) \<longrightarrow> fetchTeams (run evs boot) = run evs boot"
    using teams_guard_pending [OF guard] by (simp add: fetchTeams_def)
  ultimately show ?thesis
    by (simp add: fetchTeams_def run_def issue_def)
qed

theorem fetchTeams_single_flight_witness:
  "teamsFetching (store (fetchTeams boot))
   \<and> fetchTeams (fetchTeams boot) = fetchTeams boot
   \<and> \<not> teamsFetching (store boot)
   \<and> calls (run [Call_fetchTeams, Call_fetchTeams] boot) = [GetTeams]
   \<and> GetTeams \<in> set (pending (run [Call_fetchTeams] boot))
   \<and> fetchTeams (run [Call_fetchTeams] boot) = run [Call_fetchTeams] boot"
  using fetchTeams_single_flight [of "fetchTeams boot" "[Call_fetchTeams]"]
    fetchTeams_single_flight [of boot "[Call_fetchTeams]"]
  by (simp add: fetchTeams_def run_def issue_def boot_def initial_def)

subsection \<open>C3: the guard of the bulk prediction\<close>

text \<open>
  C3. \<open>batchPredictAll\<close> called while a bulk prediction is in flight, or with no
  players, issues no request and leaves the whole state as it was.
\<close>

theorem batchPredictAll_guarded_noop:
  "predictionsBatching (store w) \<or> length (players (store w)) = 0 \<Longrightarrow>
     batchPredictAll w = w \<and> calls (batchPredictAll w) = calls w
     \<and> store (batchPredictAll w) = store w"
  by (simp add: batchPredictAll_def)

text \<open>At start-up there are no players; after one player has been loaded and a bulk
  prediction started, a second call adds no request to the two already made.\<close>

theorem batchPredictAll_guarded_noop_witness:
  "length (players (store boot)) = 0
   \<and> batchPredictAll boot = boot
   \<and> predictionsBatching (store (run [Call_fetchPlayers, Settle_summary (Fulfilled [[''id'' \<mapsto> JNum 1]]),
         Call_batchPredictAll] boot))
   \<and> calls (batchPredictAll (run [Call_fetchPlayers, Settle_summary (Fulfilled [[''id'' \<mapsto> JNum 1]]),
         Call_batchPredictAll] boot)) = [GetPlayersSummary, PostPredictInjuryBulk [JNum 1]]"
  using batchPredictAll_guarded_noop [of boot]
    batchPredictAll_guarded_noop [of "run [Call_fetchPlayers, Settle_summary (Fulfilled [[''id'' \<mapsto> JNum 1]]),
         Call_batchPredictAll] boot"]
  by (simp add: run_def fetchPlayers_def batchPredictAll_def issue_def settle_def boot_def
        initial_def property_def)

subsection \<open>C4: the lazy load of the teams\<close>

lemma getTeamById_in_flight:
  "teamsFetching (store w) \<Longrightarrow> snd (getTeamById teamId w) = w"
  by (simp add: getTeamById_def Let_def)

lemma lookups_in_flight:
  "teamsFetching (store w) \<Longrightarrow> run (map Call_getTeamById ids) w = w"
  unfolding run_def by (induction ids) (simp_all add: getTeamById_in_flight)

text \<open>An id that no team of the collection has is not found.\<close>

lemma getTeamById_absent:
  "\<forall>t \<in> set (teams (store w)). property t ''id'' \<noteq> JNum teamId \<Longrightarrow>
     fst (getTeamById teamId w) = None"
  by (simp add: getTeamById_def Let_def find_None_iff)

text \<open>An id that a team of the collection has is found: the lookup returns the first
  team with that id, and the state is left as it is.\<close>

lemma getTeamById_present:
  assumes "t \<in> set (teams (store w))" and "property t ''id'' = JNum teamId"
  shows "\<exists>t'. fst (getTeamById teamId w) = Some t' \<and> t' \<in> set (teams (store w))
            \<and> property t' ''id'' = JNum teamId"
    and "snd (getTeamById teamId w) = w"
proof -
  let ?found = "find (\<lambda>t. property t ''id'' = JNum teamId) (teams (store w))"
  have "?found \<noteq> None"
    using assms by (auto simp: find_None_iff)
  then obtain t' where found: "?found = Some t'"
    by auto
  then have "t' \<in> set (teams (store w)) \<and> property t' ''id'' = JNum teamId"
    by (auto simp: find_Some_iff)
  then show "\<exists>t'. fst (getTeamById teamId w) = Some t' \<and> t' \<in> set (teams (store w))
            \<and> property t' ''id'' = JNum teamId"
    using found by (simp add: getTeamById_def Let_def)
  show "snd (getTeamById teamId w) = w"
    using found by (simp add: getTeamById_def Let_def)
qed

text \<open>
  C4, as stated, fails. \<open>getTeamById\<close> starts the load only when no load is in
  flight. After a direct call of \<open>fetchTeams\<close> at start-up the team collection is
  still empty, so team 1 is absent from it, and the load is in flight: the first lookup
  of team 1 finds nothing, starts nothing and leaves the state as it is; the only request
  for \<open>/teams\<close> on the log is the one of the direct call.
\<close>

theorem getTeamById_first_miss_counterexample:
  "teams (store (fetchTeams boot)) = []
   \<and> fst (getTeamById 1 (fetchTeams boot)) = None
   \<and> snd (getTeamById 1 (fetchTeams boot)) = fetchTeams boot
   \<and> calls (snd (getTeamById 1 (fetchTeams boot))) \<noteq> calls (fetchTeams boot) @ [GetTeams]
   \<and> calls (snd (getTeamById 1 (fetchTeams boot))) = [GetTeams]"
  by (simp add: getTeamById_def fetchTeams_def issue_def boot_def initial_def)

text \<open>
  C4, amended. Let no team of the collection have the id looked up. Then the lookup
  returns not-found. While no team load is in flight it starts \<open>fetchTeams\<close>: one
  request for \<open>/teams\<close> is issued and \<open>teamsFetching\<close> is set. While a team load is
  in flight it changes nothing, and neither does any further sequence of lookups made
  while the flag is set or, in a state reached from start-up, while the request is in
  flight.
\<close>

theorem getTeamById_lazy_load:
  assumes "\<forall>t \<in> set (teams (store w)). property t ''id'' \<noteq> JNum teamId"
  shows "fst (getTeamById teamId w) = None
         \<and> (\<not> teamsFetching (store w) \<longrightarrow>
            snd (getTeamById teamId w) = fetchTeams w
            \<and> calls (snd (getTeamById teamId w)) = calls w @ [GetTeams]
            \<and> pending (snd (getTeamById teamId w)) = pending w @ [GetTeams]
            \<and> teamsFetching (store (snd (getTeamById teamId w))))
         \<and> (teamsFetching (store w) \<longrightarrow>
              snd (getTeamById teamId w) = w
              \<and> run (map Call_getTeamById ids) w = w)
         \<and> (GetTeams \<in> set (pending (run evs boot)) \<longrightarrow>
              run (map Call_getTeamById ids) (run evs boot) = run evs boot)"
proof -
  have miss: "find (\<lambda>t. property t ''id'' = JNum teamId) (teams (store w)) = None"
    using assms by (simp add: find_None_iff)
  have "teams_guard (run evs boot)"
    using teams_guard_boot by (rule teams_guard_run)
  then have "GetTeams \<in> set (pending (run evs boot)) \<longrightarrow> teamsFetching (store (run evs boot))"
    by (simp add: teams_guard_pending)
  then show ?thesis
    using miss
    by (auto simp: getTeamById_def Let_def fetchTeams_def issue_def lookups_in_flight)
qed

text \<open>
  Team 14 is loaded and team 15 is looked up. The first lookup issues the request, the
  second after the load at start-up; lookups of teams 15 and 16 before it settles issue
  none. A lookup of team 14 returns the team and issues nothing.
\<close>

theorem getTeamById_lazy_load_witness:
  "teams (store team_loaded) = [[''id'' \<mapsto> JNum 14]]
   \<and> property [''id'' \<mapsto> JNum 14] ''id'' \<noteq> JNum 15
   \<and> \<not> teamsFetching (store team_loaded)
   \<and> fst (getTeamById 15 team_loaded) = None
   \<and> calls (snd (getTeamById 15 team_loaded)) = [GetTeams, GetTeams]
   \<and> teamsFetching (store (snd (getTeamById 15 team_loaded)))
   \<and> snd (getTeamById 15 (snd (getTeamById 15 team_loaded))) = snd (getTeamById 15 team_loaded)
   \<and> GetTeams \<in> set (pending (run [Call_fetchTeams,
         Settle_teams (Fulfilled [[''id'' \<mapsto> JNum 14]]), Call_getTeamById 15] boot))
   \<and> calls (run (map Call_getTeamById [15, 16]) (run [Call_fetchTeams,
         Settle_teams (Fulfilled [[''id'' \<mapsto> JNum 14]]), Call_getTeamById 15] boot))
       = [GetTeams, GetTeams]
   \<and> fst (getTeamById 14 team_loaded) = Some [''id'' \<mapsto> JNum 14]
   \<and> snd (getTeamById 14 team_loaded) = team_loaded"
proof -
  have w: "team_loaded = \<lparr> store = initial\<lparr> teams := [[''id'' \<mapsto> JNum 14]] \<rparr>,
             pending = [], calls = [GetTeams] \<rparr>"
    by (simp add: team_loaded_def run_def fetchTeams_def issue_def settle_def boot_def
          initial_def)
  have absent: "\<forall>t \<in> set (teams (store team_loaded)). property t ''id'' \<noteq> JNum 15"
    by (simp add: w property_def)
  have absent': "\<forall>t \<in> set (teams (store (snd (getTeamById 15 team_loaded)))).
                   property t ''id'' \<noteq> JNum 15"
    by (simp add: w property_def getTeamById_def fetchTeams_def issue_def initial_def)
  have evs: "run [Call_fetchTeams, Settle_teams (Fulfilled [[''id'' \<mapsto> JNum 14]]),
                  Call_getTeamById 15] boot = snd (getTeamById 15 team_loaded)"
    by (simp add: team_loaded_def run_def)
  show ?thesis
    using getTeamById_lazy_load [OF absent, of "[15, 16]"
            "[Call_fetchTeams, Settle_teams (Fulfilled [[''id'' \<mapsto> JNum 14]]),
              Call_getTeamById 15]"]
      getTeamById_lazy_load [OF absent', of "[15, 16]"
            "[Call_fetchTeams, Settle_teams (Fulfilled [[''id'' \<mapsto> JNum 14]]),
              Call_getTeamById 15]"]
    unfolding evs
    by (simp add: w property_def getTeamById_def fetchTeams_def issue_def initial_def)
qed

subsection \<open>C5: the details of a player are merged into the record\<close>



subsection \<open>C6: a single prediction is normalised and stored\<close>

lemma nullish_coalesce_value:
  "v \<noteq> JUndefined \<Longrightarrow> v \<noteq> JNull \<Longrightarrow> nullish_coalesce v d = v"
  by (cases v) simp_all

lemma factor_supplied:
  "nullish_coalesce
     (optional_chain (optional_chain (property data ''contributing_factors'') ''environmental'') k) d
   = (case supplied data k of Some v \<Rightarrow> v | None \<Rightarrow> d)"
  by (simp add: supplied_def property_def nullish_coalesce_value split: option.splits jval.splits)

text \<open>
  C6. Let \<open>t\<close> be the temperature of the call, or 72 when it is left out, and
  \<open>h\<close> its humidity, or 50 when it is left out. \<open>predictInjury\<close> posts the player
  id with \<open>t\<close> and \<open>h\<close>. When the response to that request arrives, the
  prediction map holds under the player id exactly one entry, the normalised prediction,
  whatever it held there before; its factors carry the environmental temperature and
  humidity of the response where the server supplies them and \<open>t\<close> and \<open>h\<close>
  otherwise, and the timestamp, player id, risk and risk level of the response.
\<close>

theorem predictInjury_stores_normalized:
  assumes "t = (case temperature of None \<Rightarrow> 72 | Some x \<Rightarrow> x)"
    and "h = (case humidity of None \<Rightarrow> 50 | Some x \<Rightarrow> x)"
    and "stored = injuryPredictions (store
           (step (Settle_predict playerId t h (Fulfilled data))
              (predictInjury playerId temperature humidity w)))"
  shows "calls (predictInjury playerId temperature humidity w)
           = calls w @ [PostPredictInjury playerId t h]
   \<and> pending (predictInjury playerId temperature humidity w)
           = pending w @ [PostPredictInjury playerId t h]
   \<and> store (predictInjury playerId temperature humidity w) = store w
   \<and> Map_get stored (JNum playerId) = Some (normalized data t h)
   \<and> entries_for (JNum playerId) stored = 1
   \<and> optional_chain (property (normalized data t h) ''factors'') ''temperature''
       = (case supplied data ''temperature'' of Some v \<Rightarrow> v | None \<Rightarrow> JNum t)
   \<and> optional_chain (property (normalized data t h) ''factors'') ''humidity''
       = (case supplied data ''humidity'' of Some v \<Rightarrow> v | None \<Rightarrow> JNum h)
   \<and> optional_chain (property (normalized data t h) ''factors'') ''timestamp''
       = property data ''timestamp''
   \<and> property (normalized data t h) ''player_id'' = property data ''player_id''
   \<and> property (normalized data t h) ''injury_risk'' = property data ''injury_risk''
   \<and> property (normalized data t h) ''risk_level'' = property data ''risk_level''"
proof -
  let ?m = "Map_set (JNum playerId) (normalized data t h) (Map_new (injuryPredictions (store w)))"
  have t: "default_arg temperature 72 = t"
    using assms(1) by (cases temperature) simp_all
  have h: "default_arg humidity 50 = h"
    using assms(2) by (cases humidity) simp_all
  have written: "stored = ?m"
    unfolding assms(3) by (simp add: predictInjury_def issue_def settle_def t h)
  have got: "Map_get ?m (JNum playerId) = Some (normalized data t h)"
    by (simp add: Map_get_set)
  have "distinct (map fst ?m)"
    by (simp add: distinct_Map_set distinct_Map_new)
  then have one: "entries_for (JNum playerId) ?m = 1"
    using got by (rule entries_for_present)
  have req: "calls (predictInjury playerId temperature humidity w)
               = calls w @ [PostPredictInjury playerId t h]
     \<and> pending (predictInjury playerId temperature humidity w)
               = pending w @ [PostPredictInjury playerId t h]
     \<and> store (predictInjury playerId temperature humidity w) = store w"
    by (simp add: predictInjury_def issue_def t h)
  have factors: "property (normalized data t h) ''factors''
      = JObj [ ''temperature'' \<mapsto> (case supplied data ''temperature'' of Some v \<Rightarrow> v | None \<Rightarrow> JNum t),
               ''humidity'' \<mapsto> (case supplied data ''humidity'' of Some v \<Rightarrow> v | None \<Rightarrow> JNum h),
               ''timestamp'' \<mapsto> property data ''timestamp'' ]"
    by (simp add: normalized_def factor_supplied) (simp add: property_def)
  have rest: "property (normalized data t h) ''player_id'' = property data ''player_id''
     \<and> property (normalized data t h) ''injury_risk'' = property data ''injury_risk''
     \<and> property (normalized data t h) ''risk_level'' = property data ''risk_level''"
    by (simp add: normalized_def) (simp add: property_def)
  show ?thesis
    unfolding written factors using got one req rest by (simp add: property_def)
qed

text \<open>
  Player 7 is predicted three times. With no arguments the request carries 72 and 50;
  the response supplies the temperature 85 and no humidity, so the factors are 85 and 50.
  With the humidity 30 the request carries 72 and 30 and the factors are 85 and 30. With
  the temperature 80 and a response that supplies neither value the factors are 80 and 50.
\<close>

theorem predictInjury_stores_normalized_witness:
  "calls (predictInjury 7 None None boot) = [PostPredictInjury 7 72 50]
   \<and> injuryPredictions (store
        (run [Call_predictInjury 7 None None, Settle_predict 7 72 50 (Fulfilled warm_day)] boot))
       = [(JNum 7, normalized warm_day 72 50)]
   \<and> supplied warm_day ''temperature'' = Some (JNum 85)
   \<and> supplied warm_day ''humidity'' = None
   \<and> optional_chain (property (normalized warm_day 72 50) ''factors'') ''temperature'' = JNum 85
   \<and> optional_chain (property (normalized warm_day 72 50) ''factors'') ''humidity'' = JNum 50
   \<and> calls (predictInjury 7 None (Some 30) boot) = [PostPredictInjury 7 72 30]
   \<and> injuryPredictions (store
        (run [Call_predictInjury 7 None (Some 30), Settle_predict 7 72 30 (Fulfilled warm_day)]
           boot))
       = [(JNum 7, normalized warm_day 72 30)]
   \<and> optional_chain (property (normalized warm_day 72 30) ''factors'') ''temperature'' = JNum 85
   \<and> optional_chain (property (normalized warm_day 72 30) ''factors'') ''humidity'' = JNum 30
   \<and> calls (predictInjury 7 (Some 80) None boot) = [PostPredictInjury 7 80 50]
   \<and> injuryPredictions (store
        (run [Call_predictInjury 7 (Some 80) None,
              Settle_predict 7 80 50 (Fulfilled [''player_id'' \<mapsto> JNum 7])] boot))
       = [(JNum 7, normalized [''player_id'' \<mapsto> JNum 7] 80 50)]
   \<and> optional_chain (property (normalized [''player_id'' \<mapsto> JNum 7] 80 50) ''factors'')
        ''temperature'' = JNum 80
   \<and> optional_chain (property (normalized [''player_id'' \<mapsto> JNum 7] 80 50) ''factors'')
        ''humidity'' = JNum 50"
proof -
  have a: "(72::number) = (case None of None \<Rightarrow> 72 | Some x \<Rightarrow> x)"
    and b: "(50::number) = (case None of None \<Rightarrow> 50 | Some x \<Rightarrow> x)"
    and c: "(30::number) = (case Some 30 of None \<Rightarrow> 50 | Some x \<Rightarrow> x)"
    and d: "(80::number) = (case Some 80 of None \<Rightarrow> 72 | Some x \<Rightarrow> x)"
    by simp_all
  have s1: "injuryPredictions (store
        (run [Call_predictInjury 7 None None, Settle_predict 7 72 50 (Fulfilled warm_day)] boot))
       = [(JNum 7, normalized warm_day 72 50)]"
    by (simp add: run_def predictInjury_def issue_def settle_def boot_def initial_def Map_new_def)
  have s2: "injuryPredictions (store
        (run [Call_predictInjury 7 None (Some 30), Settle_predict 7 72 30 (Fulfilled warm_day)]
           boot))
       = [(JNum 7, normalized warm_day 72 30)]"
    by (simp add: run_def predictInjury_def issue_def settle_def boot_def initial_def Map_new_def)
  have s3: "injuryPredictions (store
        (run [Call_predictInjury 7 (Some 80) None,
              Settle_predict 7 80 50 (Fulfilled [''player_id'' \<mapsto> JNum 7])] boot))
       = [(JNum 7, normalized [''player_id'' \<mapsto> JNum 7] 80 50)]"
    by (simp add: run_def predictInjury_def issue_def settle_def boot_def initial_def Map_new_def)
  have sup: "supplied warm_day ''temperature'' = Some (JNum 85)"
    "supplied warm_day ''humidity'' = None"
    "supplied [''player_id'' \<mapsto> JNum 7] k = None" for k
    by (simp_all add: supplied_def warm_day_def)
  have log: "calls boot = []"
    by (simp add: boot_def)
  show ?thesis
    using predictInjury_stores_normalized [OF a b refl, where playerId = 7 and data = warm_day
            and w = boot]
      predictInjury_stores_normalized [OF a c refl, where playerId = 7 and data = warm_day
            and w = boot]
      predictInjury_stores_normalized [OF d b refl, where playerId = 7
            and data = "[''player_id'' \<mapsto> JNum 7]" and w = boot]
    by (simp add: s1 s2 s3 sup log)
qed

subsection \<open>C7: both player endpoints fail\<close>

text \<open>
  C7, as stated, fails where it promises a message that is not empty. The handler stores
  \<open>err2.message\<close> as it is: when the second failure carries the empty message, the
  error slot holds the empty string, which the banner of the dashboard treats like no
  error.
\<close>

theorem fetchPlayers_empty_message_counterexample:
  "error (store (run [Call_fetchPlayers, Settle_summary (Rejected ''timeout''),
                       Settle_players (Rejected [])] boot)) = Some []"
  by (simp add: run_def fetchPlayers_def issue_def settle_def boot_def initial_def)

text \<open>
  C7, amended. When \<open>/players/summary\<close> fails and then \<open>/players\<close> fails, the
  player collection is the one before the call, the error slot holds the message of the
  second failure, which is empty exactly when that message is, and exactly the two
  requests have been issued. The two handlers leave the players alone in whatever state
  they run, and the second one issues nothing.
\<close>

theorem fetchPlayers_both_endpoints_fail:
  "players (store (run [Call_fetchPlayers, Settle_summary (Rejected msg1),
                               Settle_players (Rejected msg2)] w)) = players (store w)
     \<and> error (store (run [Call_fetchPlayers, Settle_summary (Rejected msg1),
                               Settle_players (Rejected msg2)] w)) = Some msg2
     \<and> (error (store (run [Call_fetchPlayers, Settle_summary (Rejected msg1),
                               Settle_players (Rejected msg2)] w)) = Some []) = (msg2 = [])
     \<and> calls (run [Call_fetchPlayers, Settle_summary (Rejected msg1),
                               Settle_players (Rejected msg2)] w)
         = calls w @ [GetPlayersSummary, GetPlayers]
     \<and> players (store (fetchPlayers_summary (Rejected msg1) w')) = players (store w')
     \<and> players (store (fetchPlayers_fallback (Rejected msg2) w')) = players (store w')
     \<and> error (store (fetchPlayers_fallback (Rejected msg2) w')) = Some msg2
     \<and> calls (fetchPlayers_fallback (Rejected msg2) w') = calls w'
     \<and> pending (fetchPlayers_fallback (Rejected msg2) w') = pending w'"
  by (auto simp: run_def fetchPlayers_def issue_def settle_def)

theorem fetchPlayers_both_endpoints_fail_witness:
  "players (store (run [Call_fetchPlayers, Settle_summary (Rejected ''timeout''),
                           Settle_players (Rejected ''Network Error'')] boot)) = []
   \<and> error (store (run [Call_fetchPlayers, Settle_summary (Rejected ''timeout''),
                           Settle_players (Rejected ''Network Error'')] boot))
       = Some ''Network Error''
   \<and> error (store (run [Call_fetchPlayers, Settle_summary (Rejected ''timeout''),
                           Settle_players (Rejected ''Network Error'')] boot)) \<noteq> Some []
   \<and> calls (run [Call_fetchPlayers, Settle_summary (Rejected ''timeout''),
                           Settle_players (Rejected ''Network Error'')] boot)
       = [GetPlayersSummary, GetPlayers]"
  using fetchPlayers_both_endpoints_fail [of "''timeout''" "''Network Error''" boot boot]
  by (simp add: boot_def initial_def)

subsection \<open>C8: the fallback endpoint answers\<close>

text \<open>
  C8. When \<open>/players/summary\<close> fails and \<open>/players\<close> answers with the payload
  \<open>L\<close>, the player collection is \<open>L\<close> and no error is recorded: neither handler
  writes the error slot, which is empty when the call found no players (as at start-up)
  and otherwise what it was before the call.
\<close>

theorem fetchPlayers_fallback_payload:
  "players (store (run [Call_fetchPlayers, Settle_summary (Rejected msg),
                         Settle_players (Fulfilled L)] w)) = L
   \<and> error (store (run [Call_fetchPlayers, Settle_summary (Rejected msg),
                         Settle_players (Fulfilled L)] w))
       = (if length (players (store w)) = 0 then None else error (store w))
   \<and> error (store (run [Call_fetchPlayers, Settle_summary (Rejected msg),
                         Settle_players (Fulfilled L)] boot)) = None
   \<and> loading (store (run [Call_fetchPlayers, Settle_summary (Rejected msg),
                         Settle_players (Fulfilled L)] w)) = False
   \<and> calls (run [Call_fetchPlayers, Settle_summary (Rejected msg),
                         Settle_players (Fulfilled L)] w)
       = calls w @ [GetPlayersSummary, GetPlayers]
   \<and> error (store (fetchPlayers_summary (Rejected msg) w')) = error (store w')
   \<and> error (store (fetchPlayers_fallback (Fulfilled L) w')) = error (store w')
   \<and> players (store (fetchPlayers_fallback (Fulfilled L) w')) = L"
  by (simp add: run_def fetchPlayers_def issue_def settle_def boot_def initial_def)

theorem fetchPlayers_fallback_payload_witness:
  "players (store (run [Call_fetchPlayers, Settle_summary (Rejected ''timeout''),
                         Settle_players (Fulfilled [[''id'' \<mapsto> JNum 5]])] boot))
     = [[''id'' \<mapsto> JNum 5]]
   \<and> error (store (run [Call_fetchPlayers, Settle_summary (Rejected ''timeout''),
                         Settle_players (Fulfilled [[''id'' \<mapsto> JNum 5]])] boot)) = None"
  using fetchPlayers_fallback_payload [of "''timeout''" "[[''id'' \<mapsto> JNum 5]]" boot boot]
  by (simp add: boot_def initial_def)

subsection \<open>C9: the bulk prediction clears its flag\<close>

text \<open>
  C9. A call of \<open>batchPredictAll\<close> that passes the guard sets
  \<open>predictionsBatching\<close> and posts the ids of the players. When that request
  settles, with a payload or with a failure, the flag is clear; after a failure the
  error slot holds the message and the prediction map is the one before.
\<close>

theorem batchPredictAll_flag_cleared:
  assumes "\<not> predictionsBatching (store w)" and "length (players (store w)) \<noteq> 0"
  shows "predictionsBatching (store (batchPredictAll w))
     \<and> pending (batchPredictAll w)
         = pending w @ [PostPredictInjuryBulk (map (\<lambda>p. property p ''id'') (players (store w)))]
     \<and> \<not> predictionsBatching (store
           (run [Call_batchPredictAll,
                 Settle_bulk (map (\<lambda>p. property p ''id'') (players (store w))) r] w))
     \<and> \<not> predictionsBatching (store (batchPredictAll_settled r w'))
     \<and> error (store (batchPredictAll_settled (Rejected msg) w')) = Some msg
     \<and> injuryPredictions (store (batchPredictAll_settled (Rejected msg) w'))
         = injuryPredictions (store w')
     \<and> error (store
           (run [Call_batchPredictAll,
                 Settle_bulk (map (\<lambda>p. property p ''id'') (players (store w))) (Rejected msg)] w))
         = Some msg
     \<and> injuryPredictions (store
           (run [Call_batchPredictAll,
                 Settle_bulk (map (\<lambda>p. property p ''id'') (players (store w))) (Rejected msg)] w))
         = injuryPredictions (store w)"
proof -
  have settled: "\<not> predictionsBatching (store (batchPredictAll_settled r w''))" for w''
    by (cases r) simp_all
  show ?thesis
    using assms by (simp add: settled run_def batchPredictAll_def issue_def settle_def)
qed

theorem batchPredictAll_flag_cleared_witness:
  "\<not> predictionsBatching (store one_player)
   \<and> length (players (store one_player)) \<noteq> 0
   \<and> predictionsBatching (store (batchPredictAll one_player))
   \<and> run [Call_batchPredictAll, Settle_bulk [JNum 1] (Rejected ''Network Error'')] one_player
       = one_player\<lparr> store := (store one_player)\<lparr> error := Some ''Network Error'' \<rparr>,
                     calls := [PostPredictInjuryBulk [JNum 1]] \<rparr>
   \<and> \<not> predictionsBatching (store
         (run [Call_batchPredictAll,
               Settle_bulk [JNum 1] (Fulfilled [[''player_id'' \<mapsto> JNum 1]])] one_player))"
proof -
  have a: "\<not> predictionsBatching (store one_player)"
    and b: "length (players (store one_player)) \<noteq> 0"
    by (simp_all add: one_player_def boot_def initial_def)
  show ?thesis
    using batchPredictAll_flag_cleared [OF a b, of "Rejected ''Network Error''" one_player "''Network Error''"]
      batchPredictAll_flag_cleared [OF a b, of "Fulfilled [[''player_id'' \<mapsto> JNum 1]]" one_player "''Network Error''"]
    by (simp add: one_player_def boot_def initial_def property_def run_def batchPredictAll_def
          issue_def settle_def)
qed

subsection \<open>C10: a failed load keeps the teams\<close>

text \<open>
  C10. When the request for \<open>/teams\<close> fails, the team collection is unchanged. Of
  the whole state the handler writes \<open>error\<close>, \<open>loading\<close> and \<open>teamsFetching\<close>
  only, and so does the call of \<open>fetchTeams\<close> followed by the failure.
\<close>

theorem fetchTeams_failure_keeps_teams:
  "teams (store (fetchTeams_settled (Rejected msg) w)) = teams (store w)
   \<and> store (fetchTeams_settled (Rejected msg) w)
       = (store w)\<lparr> error := Some msg, loading := False, teamsFetching := False \<rparr>
   \<and> teams (store (run [Call_fetchTeams, Settle_teams (Rejected msg)] w)) = teams (store w)
   \<and> store (run [Call_fetchTeams, Settle_teams (Rejected msg)] w)
       = (store w)\<lparr> error := error (store (run [Call_fetchTeams, Settle_teams (Rejected msg)] w)),
                     loading := loading (store (run [Call_fetchTeams, Settle_teams (Rejected msg)] w)),
                     teamsFetching :=
                       teamsFetching (store (run [Call_fetchTeams, Settle_teams (Rejected msg)] w)) \<rparr>"
  by (simp add: run_def fetchTeams_def issue_def settle_def)

text \<open>Team 14 is loaded; a second load fails and team 14 is still there.\<close>

theorem fetchTeams_failure_keeps_teams_witness:
  "teams (store (run [Call_fetchTeams, Settle_teams (Fulfilled [[''id'' \<mapsto> JNum 14]]),
                       Call_fetchTeams, Settle_teams (Rejected ''Network Error'')] boot))
     = [[''id'' \<mapsto> JNum 14]]
   \<and> error (store (run [Call_fetchTeams, Settle_teams (Fulfilled [[''id'' \<mapsto> JNum 14]]),
                       Call_fetchTeams, Settle_teams (Rejected ''Network Error'')] boot))
     = Some ''Network Error''"
proof -
  have split: "run [Call_fetchTeams, Settle_teams (Fulfilled [[''id'' \<mapsto> JNum 14]]),
                       Call_fetchTeams, Settle_teams (Rejected ''Network Error'')] boot
     = run [Call_fetchTeams, Settle_teams (Rejected ''Network Error'')]
         (run [Call_fetchTeams, Settle_teams (Fulfilled [[''id'' \<mapsto> JNum 14]])] boot)"
    by (simp add: run_def)
  have loaded: "teams (store (run [Call_fetchTeams, Settle_teams (Fulfilled [[''id'' \<mapsto> JNum 14]])] boot))
      = [[''id'' \<mapsto> JNum 14]]"
    by (simp add: run_def fetchTeams_def issue_def settle_def boot_def initial_def)
  show ?thesis
    unfolding split
    using fetchTeams_failure_keeps_teams [of "''Network Error''"
            "run [Call_fetchTeams, Settle_teams (Fulfilled [[''id'' \<mapsto> JNum 14]])] boot"]
    by (simp add: loaded) (simp add: run_def fetchTeams_def issue_def settle_def boot_def initial_def)
qed

end
